theory Spec2Isabelle
  imports Main
begin

unbundle bit_operations_syntax

section \<open>C strings\<close>

text \<open>
  A C string is modelled by the list of its characters before the terminating NUL.
  Reading \<open>s[i]\<close> at \<open>i = strlen(s)\<close> yields the terminator.
\<close>

definition NUL :: char where
  "NUL = CHR 0x00"

definition c_at :: "string \<Rightarrow> nat \<Rightarrow> char" where
  "c_at s i = (if i < length s then s ! i else NUL)"

text \<open>\<open>strchr(s, c)\<close>: the offset of the first \<open>c\<close> in \<open>s\<close>; the terminator counts
  as part of the string, so looking for NUL always finds it.\<close>

fun c_strchr :: "string \<Rightarrow> char \<Rightarrow> nat option" where
  "c_strchr [] c = (if c = NUL then Some 0 else None)"
| "c_strchr (x # xs) c =
     (if x = c then Some 0 else map_option Suc (c_strchr xs c))"

text \<open>\<open>strrchr(s, c)\<close>: the offset of the last \<open>c\<close> in \<open>s\<close>.\<close>

fun c_strrchr :: "string \<Rightarrow> char \<Rightarrow> nat option" where
  "c_strrchr [] c = (if c = NUL then Some 0 else None)"
| "c_strrchr (x # xs) c =
     (case c_strrchr xs c of
        Some i \<Rightarrow> Some (Suc i)
      | None \<Rightarrow> if x = c then Some 0 else None)"

text \<open>\<open>strncmp(a, b, n) == 0\<close>.\<close>

definition c_strncmp_eq :: "string \<Rightarrow> string \<Rightarrow> nat \<Rightarrow> bool" where
  "c_strncmp_eq a b n = (take n a = take n b)"

text \<open>The macro \<open>has_meta\<close> of parse.h: \<open>strpbrk(s, "\\?*[]") != NULL\<close>.\<close>

definition meta_chars :: "char list" where
  "meta_chars = [CHR 0x5C, CHR ''?'', CHR ''*'', CHR ''['', CHR '']'']"

definition has_meta :: "string \<Rightarrow> bool" where
  "has_meta s = list_ex (\<lambda>c. c \<in> set meta_chars) s"

text \<open>Modelled from the spec: basename extraction (\<open>sudo_basename\<close> lives in the
  utility library, not in this file): the final path component, that is the text after
  the last slash, or the whole string when there is none.\<close>

definition sudo_basename :: "string \<Rightarrow> string" where
  "sudo_basename s =
     (case c_strrchr s (CHR ''/'') of Some i \<Rightarrow> drop (Suc i) s | None \<Rightarrow> s)"

text \<open>Decimal rendering, as \<open>snprintf("%d")\<close> does for a descriptor number.\<close>

definition digit_char :: "nat \<Rightarrow> char" where
  "digit_char d = ''0123456789'' ! (d mod 10)"

fun dec_nat :: "nat \<Rightarrow> string" where
  "dec_nat n =
     (if n < 10 then [digit_char n]
      else dec_nat (n div 10) @ [digit_char (n mod 10)])"

definition dec_int :: "int \<Rightarrow> string" where
  "dec_int i = (if i < 0 then CHR ''-'' # dec_nat (nat (- i)) else dec_nat (nat i))"

text \<open>The sudoers argument pattern consisting of two double quotes.\<close>

definition empty_args_pattern :: string where
  "empty_args_pattern = [CHR 0x22, CHR 0x22]"

section \<open>Data\<close>

record stat =
  st_dev :: nat
  st_ino :: nat
  st_mode :: nat

definition S_ISUID :: nat where "S_ISUID = 2048"
definition S_ISGID :: nat where "S_ISGID = 1024"

text \<open>\<open>struct command_digest\<close>: a digest type and the expected digest string.\<close>

type_synonym command_digest = "nat \<times> string"

datatype fdexec = always | never | digest_only

datatype match_mode = InodeMatch | NameMatch

text \<open>\<open>struct cmnd_info\<close> of parse.h.\<close>

record cmnd_info =
  ci_cmnd_stat :: stat
  ci_cmnd_path :: "string option"
  ci_status :: int
  ci_intercepted :: bool

text \<open>How a descriptor was opened: for reading (\<open>O_RDONLY\<close>), for execution only
  (\<open>O_EXEC\<close>, which match\_command.c defines as \<open>O_PATH\<close> where the system has no
  \<open>O_EXEC\<close>), or on a directory. Only a descriptor opened for reading can be read.\<close>

datatype open_mode = ReadOnly | ExecOnly | Directory

text \<open>An open descriptor: the root it was opened under, the path it was opened by, the
  mode of the open and its close-on-exec flag.\<close>

record fdesc =
  fd_root :: string
  fd_path :: string
  fd_mode :: open_mode
  fd_cloexec :: bool

text \<open>
  The process state the matcher reads and writes: the \<open>user_*\<close> globals, the published
  \<open>safe_cmnd\<close> and \<open>cmnd_fd\<close>, the defaults, the descriptor table, the root and working
  directory, and two logs that record each call of \<open>glob\<close> and of \<open>pivot_root\<close>.
  A null pointer is \<open>None\<close>; the descriptor "none" is \<open>-1\<close>.
\<close>

record pstate =
  user_cmnd :: string
  user_base :: string
  user_cmnd_dir :: "string option"
  user_args :: "string option"
  user_stat :: "stat option"
  user_runchroot :: "string option"
  safe_cmnd :: "string option"
  cmnd_fd :: int
  def_fdexec :: fdexec
  def_fast_glob :: bool
  def_intercept_allow_setid :: bool
  def_runchroot :: "string option"
  fds :: "(nat \<times> fdesc) list"
  proc_root :: string
  proc_cwd :: string
  glob_log :: "string list"
  pivot_log :: "string list"

datatype open_result = OpenOk | OpenEACCES | OpenErr

text \<open>What \<open>set_cmnd_path\<close> leaves in the \<open>user_*\<close> globals, and its status.\<close>

record resolved =
  r_status :: int
  r_cmnd :: string
  r_base :: string
  r_dir :: "string option"
  r_stat :: stat

text \<open>
  The operating system and the external collaborators, as parameters: every path
  lookup is answered relative to a root directory (the first argument).
\<close>

record env =
  path_max :: nat
  has_o_exec :: bool
  status_FOUND :: int
  os_open_rd :: "string \<Rightarrow> string \<Rightarrow> open_result"
  os_open_exec :: "string \<Rightarrow> string \<Rightarrow> bool"
  os_stat :: "string \<Rightarrow> string \<Rightarrow> stat option"
  os_fstat :: "string \<Rightarrow> string \<Rightarrow> stat option"
  os_read :: "string \<Rightarrow> string \<Rightarrow> string"
  os_glob :: "string \<Rightarrow> string \<Rightarrow> string list option"
  os_canon_path :: "string \<Rightarrow> string \<Rightarrow> string option"
  os_chroot_ok :: "string \<Rightarrow> string \<Rightarrow> bool"
  os_alloc_ok :: "string \<Rightarrow> bool"
  os_filedigest :: "string \<Rightarrow> string \<Rightarrow> nat \<Rightarrow> string option"
  os_regcomp :: "string \<Rightarrow> bool"
  os_regexec :: "string \<Rightarrow> string \<Rightarrow> bool"
  os_fnmatch :: "string \<Rightarrow> string \<Rightarrow> bool \<Rightarrow> bool"
  os_set_cmnd_path :: "string \<Rightarrow> string \<Rightarrow> resolved"

section \<open>System calls on the process state\<close>

text \<open>Descriptors in use are natural numbers; a new descriptor is the lowest number not
  in use. A descriptor variable of the program is an \<open>int\<close>, and no negative one is open.\<close>

definition fresh_fd :: "(nat \<times> fdesc) list \<Rightarrow> nat" where
  "fresh_fd tbl =
     (case find (\<lambda>n. n \<notin> set (map fst tbl)) [0..<Suc (length tbl)] of
        Some n \<Rightarrow> n
      | None \<Rightarrow> length tbl)"

definition fd_lookup :: "pstate \<Rightarrow> int \<Rightarrow> fdesc option" where
  "fd_lookup s fd = (if fd < 0 then None else map_of (fds s) (nat fd))"

definition sys_close :: "pstate \<Rightarrow> int \<Rightarrow> pstate" where
  "sys_close s fd = s\<lparr>fds := filter (\<lambda>e. int (fst e) \<noteq> fd) (fds s)\<rparr>"

definition set_cloexec :: "bool \<Rightarrow> int \<Rightarrow> nat \<times> fdesc \<Rightarrow> nat \<times> fdesc" where
  "set_cloexec b fd e = (if int (fst e) = fd then (fst e, (snd e)\<lparr>fd_cloexec := b\<rparr>) else e)"

text \<open>\<open>fcntl(fd, F_SETFD, ...)\<close> with the close-on-exec bit set to \<open>b\<close>.\<close>

definition sys_setfd :: "pstate \<Rightarrow> int \<Rightarrow> bool \<Rightarrow> pstate" where
  "sys_setfd s fd b = s\<lparr>fds := map (set_cloexec b fd) (fds s)\<rparr>"

definition sys_open_new :: "pstate \<Rightarrow> string \<Rightarrow> open_mode \<Rightarrow> int \<times> pstate" where
  "sys_open_new s path m =
     (let fd = fresh_fd (fds s) in
      (int fd, s\<lparr>fds := (fd, \<lparr>fd_root = proc_root s, fd_path = path, fd_mode = m,
                             fd_cloexec = False\<rparr>)
                       # fds s\<rparr>))"

definition sys_stat :: "env \<Rightarrow> pstate \<Rightarrow> string \<Rightarrow> stat option" where
  "sys_stat env s path = os_stat env (proc_root s) path"

definition sys_fstat :: "env \<Rightarrow> pstate \<Rightarrow> int \<Rightarrow> stat option" where
  "sys_fstat env s fd =
     (case fd_lookup s fd of
        None \<Rightarrow> None
      | Some d \<Rightarrow> os_fstat env (fd_root d) (fd_path d))"

definition dir_join :: "string \<Rightarrow> string \<Rightarrow> string" where
  "dir_join d rel = (if d \<noteq> [] \<and> last d = CHR ''/'' then d @ rel else d @ ''/'' @ rel)"

definition sys_fstatat :: "env \<Rightarrow> pstate \<Rightarrow> int \<Rightarrow> string \<Rightarrow> stat option" where
  "sys_fstatat env s dirfd rel =
     (case fd_lookup s dirfd of
        None \<Rightarrow> None
      | Some d \<Rightarrow> os_stat env (fd_root d) (dir_join (fd_path d) rel))"

text \<open>\<open>pread(fd, buf, 2, 0)\<close>: the bytes read; none on a bad descriptor, and none on a
  descriptor that was not opened for reading (\<open>EBADF\<close>).\<close>

definition sys_pread2 :: "env \<Rightarrow> pstate \<Rightarrow> int \<Rightarrow> string" where
  "sys_pread2 env s fd =
     (case fd_lookup s fd of
        None \<Rightarrow> []
      | Some d \<Rightarrow>
          if fd_mode d = ReadOnly then take 2 (os_read env (fd_root d) (fd_path d)) else [])"

definition sys_strdup :: "env \<Rightarrow> string \<Rightarrow> string option" where
  "sys_strdup env p = (if os_alloc_ok env p then Some p else None)"

text \<open>\<open>snprintf(buf, PATH_MAX, ...)\<close> keeps at most \<open>PATH_MAX - 1\<close> characters.\<close>

definition snprintf_buf :: "env \<Rightarrow> string \<Rightarrow> string" where
  "snprintf_buf env p = take (path_max env - 1) p"

section \<open>Helpers of match\_command.c\<close>

definition regex_matches :: "env \<Rightarrow> string \<Rightarrow> string \<Rightarrow> bool" where
  "regex_matches env pattern str =
     (if \<not> os_regcomp env pattern then False else os_regexec env pattern str)"

definition command_args_match :: "env \<Rightarrow> pstate \<Rightarrow> string \<Rightarrow> string option \<Rightarrow> bool" where
  "command_args_match env s sudoers_cmnd sudoers_args =
     (let args = (case user_args s of Some a \<Rightarrow> a | None \<Rightarrow> [])
      in case sudoers_args of
           None \<Rightarrow> True
         | Some sa \<Rightarrow>
             if sa = empty_args_pattern then user_args s = None
             else if c_at sa 0 = CHR ''^'' \<and> 0 < length sa
                     \<and> c_at sa (length sa - 1) = CHR ''$''
               then regex_matches env sa args
             else os_fnmatch env sa args (sudoers_cmnd = ''sudoedit''))"


definition do_stat :: "env \<Rightarrow> pstate \<Rightarrow> int \<Rightarrow> string \<Rightarrow> stat option" where
  "do_stat env s fd path = (if fd \<noteq> - 1 then sys_fstat env s fd else sys_stat env s path)"

definition intercept_ok :: "pstate \<Rightarrow> bool \<Rightarrow> stat \<Rightarrow> bool" where
  "intercept_ok s intercepted sb =
     (if intercepted
      then (if \<not> def_intercept_allow_setid s \<and> (st_mode sb AND (S_ISUID OR S_ISGID)) \<noteq> 0
            then False else True)
      else True)"

definition is_script :: "env \<Rightarrow> pstate \<Rightarrow> int \<Rightarrow> bool" where
  "is_script env s fd =
     (case sys_pread2 env s fd of
        [m0, m1] \<Rightarrow> m0 = CHR ''#'' \<and> m1 = CHR ''!''
      | _ \<Rightarrow> False)"

text \<open>\<open>open_cmnd\<close> returns its verdict, the value of \<open>*fdp\<close> (written on a successful
  open only) and the new state.\<close>

definition open_cmnd ::
  "env \<Rightarrow> pstate \<Rightarrow> string \<Rightarrow> command_digest list \<Rightarrow> int \<Rightarrow> bool \<times> int \<times> pstate" where
  "open_cmnd env s path digests fd0 =
     (if def_fdexec s \<noteq> always \<and> digests = [] then (True, fd0, s)
      else
        let r = os_open_rd env (proc_root s) path;
            opened = (if r = OpenOk then Some ReadOnly
                      else if has_o_exec env \<and> r = OpenEACCES \<and> digests = []
                              \<and> os_open_exec env (proc_root s) path
                        then Some ExecOnly
                      else None)
        in case opened of
             None \<Rightarrow> (False, fd0, s)
           | Some m \<Rightarrow>
               let (fd, s1) = sys_open_new s path m
               in (True, fd, sys_setfd s1 fd True))"

text \<open>The \<open>/dev/fd/N\<close> probe of \<open>set_cmnd_fd\<close>: relative to the saved root descriptor
  when there is one, absolute otherwise.\<close>

definition devfd_stat :: "env \<Rightarrow> pstate \<Rightarrow> int \<Rightarrow> int \<Rightarrow> stat option" where
  "devfd_stat env s fd rootfd =
     (if rootfd \<noteq> - 1
      then sys_fstatat env s rootfd (snprintf_buf env (''dev/fd/'' @ dec_int fd))
      else sys_stat env s (snprintf_buf env (''/dev/fd/'' @ dec_int fd)))"

definition set_cmnd_fd :: "env \<Rightarrow> pstate \<Rightarrow> int \<Rightarrow> int \<Rightarrow> pstate" where
  "set_cmnd_fd env s fd rootfd =
     (let s1 = (if cmnd_fd s \<noteq> - 1 then sys_close s (cmnd_fd s) else s)
      in if fd \<noteq> - 1 then
           if def_fdexec s1 = never then (sys_close s1 fd)\<lparr>cmnd_fd := - 1\<rparr>
           else if is_script env s1 fd then
             (case devfd_stat env s1 fd rootfd of
                None \<Rightarrow> (sys_close s1 fd)\<lparr>cmnd_fd := - 1\<rparr>
              | Some sb \<Rightarrow> (sys_setfd s1 fd False)\<lparr>cmnd_fd := fd\<rparr>)
           else s1\<lparr>cmnd_fd := fd\<rparr>
         else s1\<lparr>cmnd_fd := fd\<rparr>)"

text \<open>Modelled from the spec: the digest verifier (\<open>digest_matches\<close> of match\_digest.c
  is not part of this file): given an open descriptor and a list of (algorithm, expected)
  pairs it recomputes each and succeeds if any listed pair matches, or if the list is
  empty. Without a descriptor that can be read nothing can be recomputed.\<close>

definition digest_matches ::
  "env \<Rightarrow> pstate \<Rightarrow> int \<Rightarrow> string \<Rightarrow> command_digest list \<Rightarrow> bool" where
  "digest_matches env s fd path digests =
     (if digests = [] then True
      else case fd_lookup s fd of
             None \<Rightarrow> False
           | Some d \<Rightarrow>
               fd_mode d = ReadOnly
               \<and> list_ex
                     (\<lambda>dg. os_filedigest env (fd_root d) (fd_path d) (fst dg) = Some (snd dg))
                     digests)"

text \<open>The shared exit code \<open>if (fd != -1) close(fd)\<close>.\<close>

definition close_if :: "pstate \<Rightarrow> int \<Rightarrow> pstate" where
  "close_if s fd = (if fd \<noteq> - 1 then sys_close s fd else s)"

text \<open>\<open>user_stat == NULL || (st_dev and st_ino agree)\<close>.\<close>

definition same_inode :: "stat option \<Rightarrow> stat \<Rightarrow> bool" where
  "same_inode us sb =
     (case us of None \<Rightarrow> True | Some u \<Rightarrow> st_dev u = st_dev sb \<and> st_ino u = st_ino sb)"

text \<open>The canonicalised directory of a rule disagrees with \<open>user_cmnd_dir\<close>; an unknown
  \<open>user_cmnd_dir\<close> or a failed canonicalisation never disagrees.\<close>

definition canon_differs :: "env \<Rightarrow> pstate \<Rightarrow> string \<Rightarrow> bool" where
  "canon_differs env s dir =
     (case user_cmnd_dir s of
        None \<Rightarrow> False
      | Some ud \<Rightarrow>
          (case os_canon_path env (proc_root s) dir of
             None \<Rightarrow> False
           | Some resolved \<Rightarrow> resolved \<noteq> ud))"

section \<open>The directory matcher\<close>

definition command_matches_dir_inode ::
  "env \<Rightarrow> pstate \<Rightarrow> string \<Rightarrow> nat \<Rightarrow> int \<Rightarrow> bool \<Rightarrow> command_digest list \<Rightarrow> bool \<times> pstate" where
  "command_matches_dir_inode env s sudoers_dir dlen rootfd intercepted digests =
     (if canon_differs env s sudoers_dir then (False, s)
      else
        let path = sudoers_dir @ ''/'' @ user_base s
        in if path_max env \<le> length path then (False, s)
           else
             let (ok, fd, s1) = open_cmnd env s path digests (- 1)
             in if \<not> ok then (False, close_if s1 fd)
                else
                  (case do_stat env s1 fd path of
                     None \<Rightarrow> (False, close_if s1 fd)
                   | Some sudoers_stat \<Rightarrow>
                       if \<not> intercept_ok s1 intercepted sudoers_stat
                         then (False, close_if s1 fd)
                       else if same_inode (user_stat s1) sudoers_stat then
                         if \<not> digest_matches env s1 fd path digests
                           then (False, close_if s1 fd)
                         else (True, close_if (s1\<lparr>safe_cmnd := sys_strdup env path\<rparr>) fd)
                       else (False, close_if s1 fd)))"

definition command_matches_dir_name ::
  "env \<Rightarrow> pstate \<Rightarrow> string \<Rightarrow> nat \<Rightarrow> int \<Rightarrow> bool \<Rightarrow> command_digest list \<Rightarrow> bool \<times> pstate" where
  "command_matches_dir_name env s sudoers_dir dlen rootfd intercepted digests =
     (if \<not> c_strncmp_eq (user_cmnd s) sudoers_dir dlen \<or> c_at (user_cmnd s) dlen \<noteq> CHR ''/''
        then (False, s)
      else if c_strchr (drop (dlen + 1) (user_cmnd s)) NUL \<noteq> None then (False, s)
      else
        let (ok, fd, s1) = open_cmnd env s (user_cmnd s) digests (- 1)
        in if \<not> ok then (False, close_if s1 fd)
           else if \<not> digest_matches env s1 fd (user_cmnd s1) digests
             then (False, close_if s1 fd)
           else (True, set_cmnd_fd env s1 fd rootfd))"

definition command_matches_dir ::
  "env \<Rightarrow> match_mode \<Rightarrow> pstate \<Rightarrow> string \<Rightarrow> nat \<Rightarrow> int \<Rightarrow> bool \<Rightarrow> command_digest list
     \<Rightarrow> bool \<times> pstate" where
  "command_matches_dir env mode s sudoers_dir dlen rootfd intercepted digests =
     (case mode of
        InodeMatch \<Rightarrow> command_matches_dir_inode env s sudoers_dir dlen rootfd intercepted digests
      | NameMatch \<Rightarrow> command_matches_dir_name env s sudoers_dir dlen rootfd intercepted digests)"

section \<open>The ALL, fnmatch and regex strategies\<close>

definition command_matches_all ::
  "env \<Rightarrow> match_mode \<Rightarrow> pstate \<Rightarrow> int \<Rightarrow> bool \<Rightarrow> command_digest list \<Rightarrow> bool \<times> pstate" where
  "command_matches_all env mode s rootfd intercepted digests =
     (let (bad, fd, s1) =
        (if c_strchr (user_cmnd s) (CHR ''/'') \<noteq> None then
           (case mode of
              InodeMatch \<Rightarrow>
                let (ok, fd, s1) = open_cmnd env s (user_cmnd s) digests (- 1);
                    open_error = \<not> ok
                in (case do_stat env s1 fd (user_cmnd s1) of
                      Some sb \<Rightarrow>
                        if open_error then (True, fd, s1)
                        else if \<not> intercept_ok s1 intercepted sb then (True, fd, s1)
                        else (False, fd, s1)
                    | None \<Rightarrow> (False, fd, s1))
            | NameMatch \<Rightarrow>
                let (ok, fd, s1) = open_cmnd env s (user_cmnd s) digests (- 1)
                in (False, fd, s1))
         else (False, - 1, s))
      in if bad then (False, close_if s1 fd)
         else if \<not> digest_matches env s1 fd (user_cmnd s1) digests then (False, close_if s1 fd)
         else (True, set_cmnd_fd env s1 fd rootfd))"

text \<open>The part the fnmatch and regex strategies share once the pattern matched \<open>cmnd\<close>
  and the arguments matched: open, stat and setid guard (inode mode only), digest,
  publication of the descriptor.\<close>

definition open_check_publish ::
  "env \<Rightarrow> match_mode \<Rightarrow> pstate \<Rightarrow> string \<Rightarrow> int \<Rightarrow> bool \<Rightarrow> command_digest list \<Rightarrow> bool \<times> pstate" where
  "open_check_publish env mode s cmnd rootfd intercepted digests =
     (let (ok, fd, s1) = open_cmnd env s cmnd digests (- 1)
      in if \<not> ok then (False, close_if s1 fd)
         else if mode = InodeMatch \<and>
                 (case do_stat env s1 fd cmnd of
                    None \<Rightarrow> True
                  | Some sb \<Rightarrow> \<not> intercept_ok s1 intercepted sb)
           then (False, close_if s1 fd)
         else if \<not> digest_matches env s1 fd cmnd digests then (False, close_if s1 fd)
         else (True, set_cmnd_fd env s1 fd rootfd))"

text \<open>A relative \<open>user_cmnd\<close> is replaced by \<open>user_cmnd_dir/user_base\<close>; \<open>None\<close> when that
  cannot be built.\<close>

definition qualified_cmnd :: "env \<Rightarrow> pstate \<Rightarrow> string option" where
  "qualified_cmnd env s =
     (if c_at (user_cmnd s) 0 \<noteq> CHR ''/'' then
        (case user_cmnd_dir s of
           None \<Rightarrow> None
         | Some d \<Rightarrow>
             let buf = d @ ''/'' @ user_base s
             in if path_max env \<le> length buf then None else Some buf)
      else Some (user_cmnd s))"

definition command_matches_fnmatch ::
  "env \<Rightarrow> match_mode \<Rightarrow> pstate \<Rightarrow> string \<Rightarrow> string option \<Rightarrow> int \<Rightarrow> bool
     \<Rightarrow> command_digest list \<Rightarrow> bool \<times> pstate" where
  "command_matches_fnmatch env mode s sudoers_cmnd sudoers_args rootfd intercepted digests =
     (case qualified_cmnd env s of
        None \<Rightarrow> (False, s)
      | Some cmnd \<Rightarrow>
          if \<not> os_fnmatch env sudoers_cmnd cmnd True then (False, s)
          else if command_args_match env s sudoers_cmnd sudoers_args
            then open_check_publish env mode s cmnd rootfd intercepted digests
          else (False, s))"

definition command_matches_regex ::
  "env \<Rightarrow> match_mode \<Rightarrow> pstate \<Rightarrow> string \<Rightarrow> string option \<Rightarrow> int \<Rightarrow> bool
     \<Rightarrow> command_digest list \<Rightarrow> bool \<times> pstate" where
  "command_matches_regex env mode s sudoers_cmnd sudoers_args rootfd intercepted digests =
     (case qualified_cmnd env s of
        None \<Rightarrow> (False, s)
      | Some cmnd \<Rightarrow>
          if \<not> regex_matches env sudoers_cmnd cmnd then (False, s)
          else if command_args_match env s sudoers_cmnd sudoers_args
            then open_check_publish env mode s cmnd rootfd intercepted digests
          else (False, s))"


section \<open>The glob strategy (inode mode)\<close>

text \<open>
  One iteration of a loop over the expansion either goes on to the next entry
  (\<open>Continue\<close>, with the descriptor left open and the \<open>bad_digest\<close> flag), jumps to the
  label \<open>done\<close> with a value of \<open>cp\<close> (\<open>Done\<close>, \<open>None\<close> being the null pointer), or returns
  true at once (\<open>Matched\<close>, after the directory matcher accepted).
\<close>

datatype glob_step =
    Continue pstate int bool
  | Done "string option" pstate int
  | Matched pstate

definition glob_exact_step ::
  "env \<Rightarrow> bool \<Rightarrow> command_digest list \<Rightarrow> string \<Rightarrow> pstate \<Rightarrow> int \<Rightarrow> bool \<Rightarrow> glob_step" where
  "glob_exact_step env intercepted digests cp s fd bad_digest =
     (let s0 = close_if s fd
      in if cp \<noteq> user_cmnd s0 then Continue s0 (- 1) bad_digest
         else
           let (ok, fd1, s1) = open_cmnd env s0 cp digests (- 1)
           in if \<not> ok then Continue s1 fd1 bad_digest
              else
                (case do_stat env s1 fd1 cp of
                   None \<Rightarrow> Continue s1 fd1 bad_digest
                 | Some sudoers_stat \<Rightarrow>
                     if \<not> intercept_ok s1 intercepted sudoers_stat
                       then Continue s1 fd1 bad_digest
                     else if same_inode (user_stat s1) sudoers_stat then
                       if \<not> digest_matches env s1 fd1 cp digests then Continue s1 fd1 True
                       else
                         let s2 = s1\<lparr>safe_cmnd := sys_strdup env cp\<rparr>
                         in Done (if safe_cmnd s2 = None then None else Some cp) s2 fd1
                     else Done None s1 fd1))"

fun glob_exact_pass ::
  "env \<Rightarrow> bool \<Rightarrow> command_digest list \<Rightarrow> string list \<Rightarrow> pstate \<Rightarrow> int \<Rightarrow> bool \<Rightarrow> glob_step" where
  "glob_exact_pass env intercepted digests [] s fd bad_digest = Continue s fd bad_digest"
| "glob_exact_pass env intercepted digests (cp # ap) s fd bad_digest =
     (case glob_exact_step env intercepted digests cp s fd bad_digest of
        Continue s' fd' bad' \<Rightarrow> glob_exact_pass env intercepted digests ap s' fd' bad'
      | Done c s' fd' \<Rightarrow> Done c s' fd'
      | Matched s' \<Rightarrow> Matched s')"

text \<open>The basename pass cuts \<open>cp\<close> at its first slash (\<open>strchr\<close>) before canonicalising.\<close>

definition glob_dir_differs :: "env \<Rightarrow> pstate \<Rightarrow> string \<Rightarrow> bool" where
  "glob_dir_differs env s cp =
     (if user_cmnd_dir s \<noteq> None then
        (case c_strchr cp (CHR ''/'') of
           None \<Rightarrow> False
         | Some i \<Rightarrow> canon_differs env s (take i cp))
      else False)"

definition glob_base_step ::
  "env \<Rightarrow> int \<Rightarrow> bool \<Rightarrow> command_digest list \<Rightarrow> string \<Rightarrow> pstate \<Rightarrow> int \<Rightarrow> glob_step" where
  "glob_base_step env rootfd intercepted digests cp s fd =
     (let s0 = close_if s fd;
          dlen = length cp
      in if c_at cp (dlen - 1) = CHR ''/'' then
           (let (m, s1) = command_matches_dir_inode env s0 cp dlen rootfd intercepted digests
            in if m then Matched s1 else Continue s1 (- 1) False)
         else if user_base s0 \<noteq> sudo_basename cp then Continue s0 (- 1) False
         else if glob_dir_differs env s0 cp then Continue s0 (- 1) False
         else
           let (ok, fd1, s1) = open_cmnd env s0 cp digests (- 1)
           in if \<not> ok then Continue s1 fd1 False
              else
                (case do_stat env s1 fd1 cp of
                   None \<Rightarrow> Continue s1 fd1 False
                 | Some sudoers_stat \<Rightarrow>
                     if \<not> intercept_ok s1 intercepted sudoers_stat then Continue s1 fd1 False
                     else if same_inode (user_stat s1) sudoers_stat then
                       if \<not> digest_matches env s1 fd1 cp digests then Continue s1 fd1 False
                       else
                         let s2 = s1\<lparr>safe_cmnd := sys_strdup env cp\<rparr>
                         in Done (if safe_cmnd s2 = None then None else Some cp) s2 fd1
                     else Continue s1 fd1 False))"

fun glob_base_pass ::
  "env \<Rightarrow> int \<Rightarrow> bool \<Rightarrow> command_digest list \<Rightarrow> string list \<Rightarrow> pstate \<Rightarrow> int \<Rightarrow> glob_step" where
  "glob_base_pass env rootfd intercepted digests [] s fd = Continue s fd False"
| "glob_base_pass env rootfd intercepted digests (cp # ap) s fd =
     (case glob_base_step env rootfd intercepted digests cp s fd of
        Continue s' fd' bad' \<Rightarrow> glob_base_pass env rootfd intercepted digests ap s' fd'
      | Done c s' fd' \<Rightarrow> Done c s' fd'
      | Matched s' \<Rightarrow> Matched s')"

text \<open>The code from the label \<open>done\<close> on; a loop that ran off its end left \<open>cp\<close> null.\<close>

definition glob_done ::
  "env \<Rightarrow> string \<Rightarrow> string option \<Rightarrow> int \<Rightarrow> glob_step \<Rightarrow> bool \<times> pstate" where
  "glob_done env sudoers_cmnd sudoers_args rootfd r =
     (case r of
        Matched s \<Rightarrow> (True, s)
      | Continue s fd bad \<Rightarrow> (False, close_if s fd)
      | Done cp s fd \<Rightarrow>
          if cp \<noteq> None \<and> command_args_match env s sudoers_cmnd sudoers_args
            then (True, set_cmnd_fd env s fd rootfd)
          else (False, close_if s fd))"

text \<open>The short circuit that avoids the call of \<open>glob\<close>. (For an empty pattern the
  source reads before the string; the dispatcher passes patterns that start with a
  slash only.)\<close>

definition glob_short_circuit :: "pstate \<Rightarrow> string \<Rightarrow> bool" where
  "glob_short_circuit s sudoers_cmnd =
     (c_at sudoers_cmnd (length sudoers_cmnd - 1) \<noteq> CHR ''/''
      \<and> \<not> has_meta (sudo_basename sudoers_cmnd)
      \<and> user_base s \<noteq> sudo_basename sudoers_cmnd)"

definition command_matches_glob_inode ::
  "env \<Rightarrow> pstate \<Rightarrow> string \<Rightarrow> string option \<Rightarrow> int \<Rightarrow> bool \<Rightarrow> command_digest list
     \<Rightarrow> bool \<times> pstate" where
  "command_matches_glob_inode env s sudoers_cmnd sudoers_args rootfd intercepted digests =
     (if glob_short_circuit s sudoers_cmnd then (False, s)
      else
        let s1 = s\<lparr>glob_log := glob_log s @ [sudoers_cmnd]\<rparr>
        in (case os_glob env (proc_root s1) sudoers_cmnd of
              None \<Rightarrow> (False, s1)
            | Some gl \<Rightarrow>
                if gl = [] then (False, s1)
                else
                  let r1 = (if c_at (user_cmnd s1) 0 = CHR ''/''
                            then glob_exact_pass env intercepted digests gl s1 (- 1) False
                            else Continue s1 (- 1) False);
                      r2 = (case r1 of
                              Continue s2 fd bad \<Rightarrow>
                                if \<not> bad
                                  then glob_base_pass env rootfd intercepted digests gl s2 fd
                                else Continue s2 fd bad
                            | Done c s2 fd \<Rightarrow> Done c s2 fd
                            | Matched s2 \<Rightarrow> Matched s2)
                  in glob_done env sudoers_cmnd sudoers_args rootfd r2))"

definition command_matches_glob ::
  "env \<Rightarrow> match_mode \<Rightarrow> pstate \<Rightarrow> string \<Rightarrow> string option \<Rightarrow> int \<Rightarrow> bool
     \<Rightarrow> command_digest list \<Rightarrow> bool \<times> pstate" where
  "command_matches_glob env mode s sudoers_cmnd sudoers_args rootfd intercepted digests =
     (case mode of
        InodeMatch \<Rightarrow>
          command_matches_glob_inode env s sudoers_cmnd sudoers_args rootfd intercepted digests
      | NameMatch \<Rightarrow>
          command_matches_fnmatch env mode s sudoers_cmnd sudoers_args rootfd intercepted
            digests)"

section \<open>The normal strategy\<close>

text \<open>Both variants read the last character of the rule command, \<open>sudoers_cmnd[dlen - 1]\<close>.
  The dispatcher calls them with a command that starts with a slash, so \<open>dlen\<close> is
  positive; for an empty string the model reads the terminator.\<close>

definition normal_dir_bad :: "env \<Rightarrow> pstate \<Rightarrow> string \<Rightarrow> bool" where
  "normal_dir_bad env s sudoers_cmnd =
     (if user_cmnd_dir s \<noteq> None then
        (case c_strrchr sudoers_cmnd (CHR ''/'') of
           None \<Rightarrow> False
         | Some len \<Rightarrow>
             if path_max env \<le> len then True
             else canon_differs env s (take len sudoers_cmnd))
      else False)"

definition command_matches_normal_inode ::
  "env \<Rightarrow> pstate \<Rightarrow> string \<Rightarrow> string option \<Rightarrow> int \<Rightarrow> bool \<Rightarrow> command_digest list
     \<Rightarrow> bool \<times> pstate" where
  "command_matches_normal_inode env s sudoers_cmnd sudoers_args rootfd intercepted digests =
     (let dlen = length sudoers_cmnd
      in if c_at sudoers_cmnd (dlen - 1) = CHR ''/''
           then command_matches_dir_inode env s sudoers_cmnd dlen rootfd intercepted digests
         else if user_base s \<noteq> sudo_basename sudoers_cmnd then (False, s)
         else if normal_dir_bad env s sudoers_cmnd then (False, s)
         else
           let (ok, fd, s1) = open_cmnd env s sudoers_cmnd digests (- 1)
           in if \<not> ok then (False, close_if s1 fd)
              else if (case (if user_stat s1 \<noteq> None then do_stat env s1 fd sudoers_cmnd
                             else None) of
                         Some sudoers_stat \<Rightarrow>
                           \<not> intercept_ok s1 intercepted sudoers_stat
                           \<or> \<not> same_inode (user_stat s1) sudoers_stat
                       | None \<Rightarrow> user_cmnd s1 \<noteq> sudoers_cmnd)
                then (False, close_if s1 fd)
              else if \<not> command_args_match env s1 sudoers_cmnd sudoers_args
                then (False, close_if s1 fd)
              else if \<not> digest_matches env s1 fd sudoers_cmnd digests
                then (False, close_if s1 fd)
              else
                let s2 = s1\<lparr>safe_cmnd := sys_strdup env sudoers_cmnd\<rparr>
                in if safe_cmnd s2 = None then (False, close_if s2 fd)
                   else (True, set_cmnd_fd env s2 fd rootfd))"

definition command_matches_normal_name ::
  "env \<Rightarrow> pstate \<Rightarrow> string \<Rightarrow> string option \<Rightarrow> int \<Rightarrow> bool \<Rightarrow> command_digest list
     \<Rightarrow> bool \<times> pstate" where
  "command_matches_normal_name env s sudoers_cmnd sudoers_args rootfd intercepted digests =
     (let dlen = length sudoers_cmnd
      in if c_at sudoers_cmnd (dlen - 1) = CHR ''/''
           then command_matches_dir_name env s sudoers_cmnd dlen rootfd intercepted digests
         else if user_cmnd s = sudoers_cmnd
                 \<and> command_args_match env s sudoers_cmnd sudoers_args then
           (let (ok, fd, s1) = open_cmnd env s (user_cmnd s) digests (- 1)
            in if \<not> ok then (False, close_if s1 fd)
               else if \<not> digest_matches env s1 fd (user_cmnd s1) digests
                 then (False, close_if s1 fd)
               else
                 let s2 = s1\<lparr>safe_cmnd := sys_strdup env sudoers_cmnd\<rparr>
                 in if safe_cmnd s2 = None then (False, close_if s2 fd)
                    else (True, set_cmnd_fd env s2 fd rootfd))
         else (False, s))"

definition command_matches_normal ::
  "env \<Rightarrow> match_mode \<Rightarrow> pstate \<Rightarrow> string \<Rightarrow> string option \<Rightarrow> int \<Rightarrow> bool
     \<Rightarrow> command_digest list \<Rightarrow> bool \<times> pstate" where
  "command_matches_normal env mode s sudoers_cmnd sudoers_args rootfd intercepted digests =
     (case mode of
        InodeMatch \<Rightarrow>
          command_matches_normal_inode env s sudoers_cmnd sudoers_args rootfd intercepted digests
      | NameMatch \<Rightarrow>
          command_matches_normal_name env s sudoers_cmnd sudoers_args rootfd intercepted digests)"

section \<open>Root pivot and the user-command resolver\<close>

text \<open>Modelled from the spec: \<open>pivot_root\<close> and \<open>unpivot_root\<close> (pivot.c is not part of
  this file). \<open>pivot_root\<close> captures two descriptors, one for the current root and one
  for the current working directory, then changes root to the new root and the working
  directory to \<open>/\<close>; on a failure no state is changed and no descriptor is left.
  \<open>unpivot_root\<close> restores working directory and root from the saved descriptors and
  closes them; a descriptor that is not open restores nothing.\<close>

definition pivot_root :: "env \<Rightarrow> pstate \<Rightarrow> string \<Rightarrow> bool \<times> (int \<times> int) \<times> pstate" where
  "pivot_root env s new_root =
     (let s0 = s\<lparr>pivot_log := pivot_log s @ [new_root]\<rparr>
      in if \<not> os_chroot_ok env (proc_root s0) new_root then (False, (- 1, - 1), s0)
         else
           let (fd0, s1) = sys_open_new s0 ''/'' Directory;
               (fd1, s2) = sys_open_new s1 (proc_cwd s1) Directory
           in (True, (fd0, fd1), s2\<lparr>proc_root := new_root, proc_cwd := ''/''\<rparr>))"

definition unpivot_root :: "pstate \<Rightarrow> int \<times> int \<Rightarrow> pstate" where
  "unpivot_root s pfds =
     (let s1 = (case fd_lookup s (fst pfds) of
                  None \<Rightarrow> s
                | Some d \<Rightarrow> (sys_close s (fst pfds))\<lparr>proc_root := fd_root d\<rparr>)
      in case fd_lookup s1 (snd pfds) of
           None \<Rightarrow> s1
         | Some d \<Rightarrow> (sys_close s1 (snd pfds))\<lparr>proc_cwd := fd_path d\<rparr>)"

text \<open>Modelled from the spec: the user-command resolver \<open>set_cmnd_path\<close>: it locates the
  user command, returns a status and updates the process-wide \<open>user_cmnd\<close>, \<open>user_base\<close>,
  \<open>user_cmnd_dir\<close> and the record \<open>user_stat\<close> points to (a null \<open>user_stat\<close> stays
  null).\<close>

definition set_cmnd_path :: "env \<Rightarrow> pstate \<Rightarrow> int \<times> pstate" where
  "set_cmnd_path env s =
     (let r = os_set_cmnd_path env (proc_root s) (user_cmnd s)
      in (r_status r,
          s\<lparr>user_cmnd := r_cmnd r, user_base := r_base r, user_cmnd_dir := r_dir r,
            user_stat := (case user_stat s of None \<Rightarrow> None | Some u \<Rightarrow> Some (r_stat r))\<rparr>))"

section \<open>The dispatcher\<close>

text \<open>The chroot reconciliation at the head of \<open>command_matches\<close>: \<open>None\<close> on a chroot
  mismatch, else the effective chroot and the flag \<open>reset_cmnd\<close>.\<close>

definition reconcile_chroot :: "pstate \<Rightarrow> string option \<Rightarrow> (string option \<times> bool) option" where
  "reconcile_chroot s runchroot =
     (if user_runchroot s \<noteq> None then
        (if runchroot \<noteq> None \<and> runchroot \<noteq> Some ''*'' \<and> runchroot \<noteq> user_runchroot s
           then None
         else Some (user_runchroot s, False))
      else if runchroot = None then
        (if def_runchroot s \<noteq> None \<and> def_runchroot s \<noteq> Some ''*''
           then Some (def_runchroot s, False)
         else Some (None, False))
      else Some (runchroot, True))"

text \<open>The strategy selection, from the test for \<open>ALL\<close> to the label \<open>done\<close>.\<close>

definition select_strategy ::
  "env \<Rightarrow> match_mode \<Rightarrow> pstate \<Rightarrow> string option \<Rightarrow> string option \<Rightarrow> int \<Rightarrow> bool
     \<Rightarrow> command_digest list \<Rightarrow> bool \<times> pstate" where
  "select_strategy env mode s sudoers_cmnd sudoers_args rootfd intercepted digests =
     (case sudoers_cmnd of
        None \<Rightarrow> command_matches_all env mode s rootfd intercepted digests
      | Some c \<Rightarrow>
          if c_at c 0 = CHR ''^''
            then command_matches_regex env mode s c sudoers_args rootfd intercepted digests
          else if c_at c 0 \<noteq> CHR ''/'' then
            (if c = ''list'' \<or> c = ''sudoedit'' then
               (if user_cmnd s = c \<and> command_args_match env s c sudoers_args
                  then (True, s) else (False, s))
             else (False, s))
          else if has_meta c then
            (if def_fast_glob s
               then command_matches_fnmatch env mode s c sudoers_args rootfd intercepted digests
             else command_matches_glob env mode s c sudoers_args rootfd intercepted digests)
          else command_matches_normal env mode s c sudoers_args rootfd intercepted digests)"

text \<open>The code from the label \<open>done\<close> on: restore the root, then \<open>user_cmnd\<close> and
  \<open>user_stat\<close> when they were saved.\<close>

definition restore_after ::
  "pstate \<Rightarrow> string option \<Rightarrow> int \<times> int \<Rightarrow> string option \<Rightarrow> stat option
     \<Rightarrow> cmnd_info option \<Rightarrow> bool \<Rightarrow> bool \<times> pstate \<times> cmnd_info option" where
  "restore_after s runchroot pivot_fds saved_user_cmnd saved_user_stat info rc =
     (let s1 = (if runchroot \<noteq> None then unpivot_root s pivot_fds else s)
      in case saved_user_cmnd of
           None \<Rightarrow> (rc, s1, info)
         | Some sc \<Rightarrow>
             let info' =
                   (case info of
                      None \<Rightarrow> None
                    | Some i \<Rightarrow>
                        Some (i\<lparr>ci_cmnd_path := Some (user_cmnd s1),
                                ci_cmnd_stat :=
                                  (case user_stat s1 of
                                     Some st \<Rightarrow> st
                                   | None \<Rightarrow> ci_cmnd_stat i)\<rparr>));
                 s2 = s1\<lparr>user_cmnd := sc,
                         user_stat :=
                           (case user_stat s1 of
                              None \<Rightarrow> None
                            | Some st \<Rightarrow> saved_user_stat)\<rparr>
             in (rc, s2, info'))"

definition command_matches ::
  "env \<Rightarrow> match_mode \<Rightarrow> pstate \<Rightarrow> string option \<Rightarrow> string option \<Rightarrow> string option
     \<Rightarrow> cmnd_info option \<Rightarrow> command_digest list \<Rightarrow> bool \<times> pstate \<times> cmnd_info option" where
  "command_matches env mode s sudoers_cmnd sudoers_args runchroot info digests =
     (let intercepted = (case info of Some i \<Rightarrow> ci_intercepted i | None \<Rightarrow> False)
      in case reconcile_chroot s runchroot of
           None \<Rightarrow> restore_after s runchroot (- 1, - 1) None None info False
         | Some (eff_chroot, reset_cmnd) \<Rightarrow>
             let (pivoted, pivot_fds, s1) =
                   (case eff_chroot of
                      None \<Rightarrow> (True, (- 1, - 1), s)
                    | Some r \<Rightarrow> pivot_root env s r)
             in if \<not> pivoted then restore_after s1 eff_chroot pivot_fds None None info False
                else
                  let (saved_user_cmnd, saved_user_stat, s2, info2) =
                        (if reset_cmnd then
                           (let (status, s2) = set_cmnd_path env s1
                            in (if status \<noteq> status_FOUND env then None
                                  else Some (user_cmnd s1),
                                user_stat s1, s2,
                                map_option (\<lambda>i. i\<lparr>ci_status := status\<rparr>) info))
                         else (None, None, s1, info));
                      (rc, s3) = select_strategy env mode s2 sudoers_cmnd sudoers_args
                                   (fst pivot_fds) intercepted digests
                  in restore_after s3 eff_chroot pivot_fds saved_user_cmnd saved_user_stat
                       info2 rc)"


section \<open>An invariant of the glob loops\<close>


section \<open>A concrete system\<close>

text \<open>A small system on which the theorems below are instantiated: every file can be
  opened and has the same inode, \<open>/bin/ls\<close> is the user's command, no digest is on record,
  \<open>fnmatch\<close> accepts equal strings only and no regular expression matches.\<close>

definition stat0 :: stat where
  "stat0 = \<lparr>st_dev = 1, st_ino = 42, st_mode = 493\<rparr>"

definition env0 :: env where
  "env0 =
     \<lparr>path_max = 4096, has_o_exec = True, status_FOUND = 0,
      os_open_rd = (\<lambda>root p. OpenOk),
      os_open_exec = (\<lambda>root p. False),
      os_stat = (\<lambda>root p. Some stat0),
      os_fstat = (\<lambda>root p. Some stat0),
      os_read = (\<lambda>root p. ''#!/bin/sh''),
      os_glob = (\<lambda>root p. Some [''/bin/ls'']),
      os_canon_path = (\<lambda>root p. None),
      os_chroot_ok = (\<lambda>root p. True),
      os_alloc_ok = (\<lambda>p. True),
      os_filedigest = (\<lambda>root p ty. None),
      os_regcomp = (\<lambda>p. True),
      os_regexec = (\<lambda>p str. False),
      os_fnmatch = (\<lambda>p str pathname. p = str),
      os_set_cmnd_path =
        (\<lambda>root c. \<lparr>r_status = 0, r_cmnd = c, r_base = sudo_basename c, r_dir = None,
                     r_stat = stat0\<rparr>)\<rparr>"

definition st0 :: pstate where
  "st0 =
     \<lparr>user_cmnd = ''/bin/ls'', user_base = ''ls'', user_cmnd_dir = None,
      user_args = None, user_stat = Some stat0, user_runchroot = None,
      safe_cmnd = None, cmnd_fd = - 1, def_fdexec = digest_only, def_fast_glob = False,
      def_intercept_allow_setid = False, def_runchroot = None, fds = [],
      proc_root = ''/'', proc_cwd = ''/'', glob_log = [], pivot_log = []\<rparr>"





text \<open>The concrete state after \<open>/bin/ls\<close> was opened as descriptor 0.\<close>

definition st_opened :: pstate where
  "st_opened =
     st0\<lparr>fds := [(0, \<lparr>fd_root = ''/'', fd_path = ''/bin/ls'', fd_mode = ReadOnly,
                       fd_cloexec = True\<rparr>)]\<rparr>"

section \<open>Strings and the argument matcher\<close>

lemma c_strchr_NUL: "c_strchr xs NUL \<noteq> None"
  by (induction xs) auto

lemma c_at_0: "c_at p 0 = CHR ''^'' \<longleftrightarrow> p \<noteq> [] \<and> hd p = CHR ''^''"
  by (cases p) (auto simp: c_at_def NUL_def)

lemma c_at_last: "p \<noteq> [] \<Longrightarrow> c_at p (length p - Suc 0) = last p"
  by (simp add: c_at_def last_conv_nth)

text \<open>
  Claim C7. The argument matcher returns true exactly in one of four cases: the rule has
  no argument pattern; the pattern is the two-character string of two double quotes and
  the user supplied no arguments; the pattern begins with \<open>^\<close> and ends with \<open>$\<close>, compiles
  as a regular expression and matches the user's arguments (the empty string when there
  are none); or the pattern is none of these shapes and \<open>fnmatch\<close> accepts the user's
  arguments, the path-separator flag being set exactly when the rule command is
  \<open>sudoedit\<close>.
\<close>

theorem command_args_match_cases:
  "command_args_match env s sudoers_cmnd sudoers_args =
     (sudoers_args = None
      \<or> (sudoers_args = Some empty_args_pattern \<and> user_args s = None)
      \<or> (\<exists>p. sudoers_args = Some p \<and> p \<noteq> empty_args_pattern
              \<and> p \<noteq> [] \<and> hd p = CHR ''^'' \<and> last p = CHR ''$''
              \<and> os_regcomp env p
              \<and> os_regexec env p (case user_args s of None \<Rightarrow> [] | Some a \<Rightarrow> a))
      \<or> (\<exists>p. sudoers_args = Some p \<and> p \<noteq> empty_args_pattern
              \<and> \<not> (p \<noteq> [] \<and> hd p = CHR ''^'' \<and> last p = CHR ''$'')
              \<and> os_fnmatch env p (case user_args s of None \<Rightarrow> [] | Some a \<Rightarrow> a)
                   (sudoers_cmnd = ''sudoedit'')))"
proof (cases sudoers_args)
  case None
  then show ?thesis by (simp add: command_args_match_def)
next
  case (Some p)
  show ?thesis
  proof (cases "p = []")
    case True
    with Some show ?thesis
      by (simp add: command_args_match_def empty_args_pattern_def c_at_def)
  next
    case False
    with Some show ?thesis
      by (auto simp: command_args_match_def Let_def regex_matches_def c_at_0 c_at_last)
  qed
qed

theorem command_args_match_cases_witness:
  "command_args_match env0 (st0\<lparr>user_args := Some ''/etc/hosts''\<rparr>) ''sudoedit''
     (Some ''/etc/hosts'')
   \<and> \<not> command_args_match env0 (st0\<lparr>user_args := Some ''-l''\<rparr>) ''sudoedit''
         (Some empty_args_pattern)"
proof -
  have p: "''/etc/hosts'' \<noteq> empty_args_pattern" by (simp add: empty_args_pattern_def)
  show ?thesis
    using command_args_match_cases [of env0 "st0\<lparr>user_args := Some ''/etc/hosts''\<rparr>"
        "''sudoedit''" "Some ''/etc/hosts''"]
      command_args_match_cases [of env0 "st0\<lparr>user_args := Some ''-l''\<rparr>"
        "''sudoedit''" "Some empty_args_pattern"]
    by (simp add: p env0_def)
qed

section \<open>The ALL strategy and an unopenable file\<close>

lemma c_strchr_iff: "c_strchr xs c \<noteq> None \<longleftrightarrow> c \<in> set xs \<or> c = NUL"
  by (induction xs) auto

lemma fd_lookup_neg [simp]: "fd_lookup s (- 1) = None"
  by (simp add: fd_lookup_def)

lemma unpivot_root_none [simp]: "unpivot_root s (- 1, - 1) = s"
  by (simp add: unpivot_root_def)

lemma open_cmnd_fail:
  "\<not> fst (open_cmnd env s p digests fd0) \<Longrightarrow> open_cmnd env s p digests fd0 = (False, fd0, s)"
  by (auto simp: open_cmnd_def Let_def split: if_splits prod.splits option.splits)

text \<open>
  Claim C10. In inode mode, when \<open>user_cmnd\<close> contains a slash, the attempt to open it
  failed and the file can nevertheless be stat'ed, the \<open>ALL\<close> strategy returns false,
  whatever the digest list (the empty one included): only a file that cannot be stat'ed
  is forgiven a failed open.
\<close>

theorem all_rejects_existing_unopenable:
  assumes slash: "CHR ''/'' \<in> set (user_cmnd s)"
    and nopen: "\<not> fst (open_cmnd env s (user_cmnd s) digests (- 1))"
    and exists: "sys_stat env s (user_cmnd s) \<noteq> None"
  shows "fst (command_matches_all env InodeMatch s rootfd intercepted digests) = False"
proof -
  from slash have c: "c_strchr (user_cmnd s) (CHR ''/'') \<noteq> None"
    using c_strchr_iff [of "user_cmnd s" "CHR ''/''"] by blast
  from nopen have o: "open_cmnd env s (user_cmnd s) digests (- 1) = (False, - 1, s)"
    by (rule open_cmnd_fail)
  from exists obtain sb where sb: "do_stat env s (- 1) (user_cmnd s) = Some sb"
    by (auto simp: do_stat_def)
  show ?thesis
    using c by (simp add: command_matches_all_def o sb)
qed

theorem all_rejects_existing_unopenable_witness:
  "CHR ''/'' \<in> set ''/bin/ls''
   \<and> \<not> fst (open_cmnd (env0\<lparr>os_open_rd := \<lambda>root p. OpenErr\<rparr>) (st0\<lparr>def_fdexec := always\<rparr>)
              ''/bin/ls'' [] (- 1))
   \<and> sys_stat (env0\<lparr>os_open_rd := \<lambda>root p. OpenErr\<rparr>) (st0\<lparr>def_fdexec := always\<rparr>)
        ''/bin/ls'' \<noteq> None
   \<and> fst (command_matches_all (env0\<lparr>os_open_rd := \<lambda>root p. OpenErr\<rparr>) InodeMatch
            (st0\<lparr>def_fdexec := always\<rparr>) (- 1) False []) = False"
proof -
  let ?e = "env0\<lparr>os_open_rd := \<lambda>root p. OpenErr\<rparr>"
  let ?s = "st0\<lparr>def_fdexec := always\<rparr>"
  have u: "user_cmnd ?s = ''/bin/ls''" by (simp add: st0_def)
  have a: "CHR ''/'' \<in> set (user_cmnd ?s)" by (simp add: st0_def)
  have b: "\<not> fst (open_cmnd ?e ?s (user_cmnd ?s) [] (- 1))"
    by (simp add: open_cmnd_def env0_def st0_def)
  have c: "sys_stat ?e ?s (user_cmnd ?s) \<noteq> None"
    by (simp add: sys_stat_def env0_def)
  from all_rejects_existing_unopenable [OF a b c, of "- 1" False] a b c u
  show ?thesis by simp
qed

section \<open>The short circuit of the glob strategy\<close>

text \<open>
  Claim C9. In the inode-mode glob strategy, for a rule pattern that does not end in a
  slash, whose basename has no meta character and differs from \<open>user_base\<close>, the match
  returns false and leaves the state as it was: in particular \<open>glob\<close> was not called
  (the log of expansions is unchanged).
\<close>

theorem glob_short_circuit_skips_expansion:
  assumes "sudoers_cmnd \<noteq> []"
    and "last sudoers_cmnd \<noteq> CHR ''/''"
    and "\<not> has_meta (sudo_basename sudoers_cmnd)"
    and "sudo_basename sudoers_cmnd \<noteq> user_base s"
  shows "command_matches_glob_inode env s sudoers_cmnd sudoers_args rootfd intercepted digests
           = (False, s)
         \<and> glob_log (snd (command_matches_glob_inode env s sudoers_cmnd sudoers_args rootfd
                             intercepted digests)) = glob_log s"
  using assms
  by (auto simp: command_matches_glob_inode_def glob_short_circuit_def c_at_last)

theorem glob_short_circuit_skips_expansion_witness:
  "''/bin/cat'' \<noteq> [] \<and> last ''/bin/cat'' \<noteq> CHR ''/''
   \<and> \<not> has_meta (sudo_basename ''/bin/cat'')
   \<and> sudo_basename ''/bin/cat'' \<noteq> user_base st0
   \<and> command_matches_glob_inode env0 st0 ''/bin/cat'' None (- 1) False [] = (False, st0)
   \<and> glob_log (snd (command_matches_glob_inode env0 st0 ''/bin/cat'' None (- 1) False []))
       = glob_log st0"
proof -
  have a: "''/bin/cat'' \<noteq> []" and b: "last ''/bin/cat'' \<noteq> CHR ''/''" by simp_all
  have bn: "sudo_basename ''/bin/cat'' = ''cat''"
    by (simp add: sudo_basename_def NUL_def)
  have c: "\<not> has_meta (sudo_basename ''/bin/cat'')"
    by (simp add: bn has_meta_def meta_chars_def)
  have d: "sudo_basename ''/bin/cat'' \<noteq> user_base st0"
    by (simp add: bn st0_def)
  from glob_short_circuit_skips_expansion [OF a b c d, of env0 None "- 1" False "[]"] a b c d
  show ?thesis by simp
qed


section \<open>The dispatcher: chroot conflict and pseudo-commands\<close>

text \<open>
  Claim C5. When the user supplied a chroot and the rule's chroot is non-null, is not
  \<open>*\<close> and differs from the user's, \<open>command_matches\<close> returns false and the whole
  process state is as before the call: \<open>pivot_root\<close> was not called (its log is
  unchanged), and root and working directory never changed.
\<close>

theorem chroot_conflict_rejected_without_pivot:
  assumes "user_runchroot s = Some u" and "runchroot = Some r" and "r \<noteq> ''*''" and "r \<noteq> u"
  shows "command_matches env mode s sudoers_cmnd sudoers_args runchroot info digests
           = (False, s, info)"
  using assms
  by (simp add: command_matches_def reconcile_chroot_def restore_after_def)


theorem chroot_conflict_rejected_without_pivot_witness:
  "user_runchroot (st0\<lparr>user_runchroot := Some ''/srv/a''\<rparr>) = Some ''/srv/a''
   \<and> ''/srv/b'' \<noteq> ''*'' \<and> ''/srv/b'' \<noteq> ''/srv/a''
   \<and> command_matches env0 InodeMatch (st0\<lparr>user_runchroot := Some ''/srv/a''\<rparr>)
        (Some ''/bin/ls'') None (Some ''/srv/b'') None []
       = (False, st0\<lparr>user_runchroot := Some ''/srv/a''\<rparr>, None)"
proof -
  have a: "user_runchroot (st0\<lparr>user_runchroot := Some ''/srv/a''\<rparr>) = Some ''/srv/a''"
    by simp
  have b: "''/srv/b'' \<noteq> ''*''" and c: "''/srv/b'' \<noteq> ''/srv/a''" by simp_all
  from chroot_conflict_rejected_without_pivot [OF a refl b c] a b c
  show ?thesis by simp
qed

lemma command_args_match_cong:
  "user_args t = user_args s \<Longrightarrow>
     command_args_match env t c sudoers_args = command_args_match env s c sudoers_args"
  unfolding command_args_match_def by (erule ssubst) (rule refl)

lemma fst_restore_after [simp]: "fst (restore_after t p pf sc ss i rc) = rc"
  by (simp add: restore_after_def Let_def split: option.splits)

lemma unpivot_root_fields [simp]:
  "safe_cmnd (unpivot_root s pf) = safe_cmnd s"
  "user_args (unpivot_root s pf) = user_args s"
  by (simp_all add: unpivot_root_def sys_close_def Let_def split: option.splits)

lemma safe_cmnd_restore_after [simp]:
  "safe_cmnd (fst (snd (restore_after t p pf sc ss i rc))) = safe_cmnd t"
  by (simp add: restore_after_def Let_def split: option.splits)

lemma pivot_root_fields:
  assumes "pivot_root env s r = (ok, pf, s1)"
  shows "user_args s1 = user_args s" and "user_cmnd s1 = user_cmnd s"
    and "safe_cmnd s1 = safe_cmnd s" and "def_fast_glob s1 = def_fast_glob s"
    and "ok \<Longrightarrow> proc_root s1 = r"
  using assms
  by (auto simp: pivot_root_def sys_open_new_def Let_def split: if_splits)

lemma set_cmnd_path_fields:
  assumes "set_cmnd_path env s = (status, s1)"
  shows "user_args s1 = user_args s" and "safe_cmnd s1 = safe_cmnd s"
    and "def_fast_glob s1 = def_fast_glob s"
    and "user_cmnd s1 = r_cmnd (os_set_cmnd_path env (proc_root s) (user_cmnd s))"
    and "proc_root s1 = proc_root s"
  using assms by (auto simp: set_cmnd_path_def Let_def)

text \<open>The three ways through the dispatcher: a chroot mismatch, a failed pivot, or
  the selection of a strategy in a state that agrees with the caller's on \<open>user_args\<close>,
  \<open>safe_cmnd\<close> and \<open>fast_glob\<close>, and whose root is the effective chroot when there is
  one.\<close>

lemma command_matches_unfold:
  obtains
    (mismatch) "reconcile_chroot s runchroot = None"
      and "command_matches env mode s sudoers_cmnd sudoers_args runchroot info digests
             = (False, s, info)"
  | (pivot_failed) s' info' where
      "command_matches env mode s sudoers_cmnd sudoers_args runchroot info digests
         = (False, s', info')"
      and "safe_cmnd s' = safe_cmnd s"
  | (selected) eff reset pf s2 sc ss info2 where
      "reconcile_chroot s runchroot = Some (eff, reset)"
      and "command_matches env mode s sudoers_cmnd sudoers_args runchroot info digests
             = (let (rc, s3) = select_strategy env mode s2 sudoers_cmnd sudoers_args (fst pf)
                                 (case info of Some i \<Rightarrow> ci_intercepted i | None \<Rightarrow> False)
                                 digests
                in restore_after s3 eff pf sc ss info2 rc)"
      and "user_args s2 = user_args s" and "safe_cmnd s2 = safe_cmnd s"
      and "def_fast_glob s2 = def_fast_glob s"
      and "user_cmnd s2 =
             (if reset then r_cmnd (os_set_cmnd_path env (the eff) (user_cmnd s))
              else user_cmnd s)"
      and "proc_root s2 = (case eff of None \<Rightarrow> proc_root s | Some r \<Rightarrow> r)"
proof (cases "reconcile_chroot s runchroot")
  case None
  then have "command_matches env mode s sudoers_cmnd sudoers_args runchroot info digests
      = restore_after s runchroot (- 1, - 1) None None info False"
    by (simp add: command_matches_def)
  moreover have "runchroot \<noteq> None \<longrightarrow> unpivot_root s (- 1, - 1) = s" by simp
  ultimately show ?thesis
    using None mismatch by (simp add: restore_after_def)
next
  case (Some er)
  obtain eff reset where er: "er = (eff, reset)" by (cases er)
  obtain ok pf s1 where piv:
    "(case eff of None \<Rightarrow> (True, (- 1, - 1), s) | Some r \<Rightarrow> pivot_root env s r) = (ok, pf, s1)"
    by (cases "(case eff of None \<Rightarrow> (True, (- 1, - 1), s) | Some r \<Rightarrow> pivot_root env s r)")
  have s1: "user_args s1 = user_args s" "user_cmnd s1 = user_cmnd s"
    "safe_cmnd s1 = safe_cmnd s" "def_fast_glob s1 = def_fast_glob s"
    using piv by (auto split: option.splits dest: pivot_root_fields)
  have root: "reset \<Longrightarrow> ok \<Longrightarrow> proc_root s1 = the eff"
    using piv Some er
    by (auto simp: reconcile_chroot_def split: option.splits if_splits dest: pivot_root_fields)
  have rt: "ok \<Longrightarrow> proc_root s1 = (case eff of None \<Rightarrow> proc_root s | Some r \<Rightarrow> r)"
    using piv by (auto split: option.splits dest: pivot_root_fields(5))
  show ?thesis
  proof (cases ok)
    case False
    with Some er piv have
      "command_matches env mode s sudoers_cmnd sudoers_args runchroot info digests
         = restore_after s1 eff pf None None info False"
      by (simp add: command_matches_def)
    then show ?thesis
      using pivot_failed [of "fst (snd (restore_after s1 eff pf None None info False))"
          "snd (snd (restore_after s1 eff pf None None info False))"] s1
      by (simp add: restore_after_def)
  next
    case True
    show ?thesis
    proof (cases reset)
      case False
      with Some er piv True have
        "command_matches env mode s sudoers_cmnd sudoers_args runchroot info digests
           = (let (rc, s3) = select_strategy env mode s1 sudoers_cmnd sudoers_args (fst pf)
                               (case info of Some i \<Rightarrow> ci_intercepted i | None \<Rightarrow> False)
                               digests
              in restore_after s3 eff pf None None info rc)"
        by (simp add: command_matches_def)
      then show ?thesis
        using selected [of eff reset s1 pf None None info] Some er s1 False rt [OF True]
        by simp
    next
      case reset: True
      obtain status s2 where scp: "set_cmnd_path env s1 = (status, s2)"
        by (cases "set_cmnd_path env s1")
      note f = set_cmnd_path_fields [OF scp]
      from Some er piv True reset scp have
        "command_matches env mode s sudoers_cmnd sudoers_args runchroot info digests
           = (let (rc, s3) = select_strategy env mode s2 sudoers_cmnd sudoers_args (fst pf)
                               (case info of Some i \<Rightarrow> ci_intercepted i | None \<Rightarrow> False)
                               digests
              in restore_after s3 eff pf
                   (if status \<noteq> status_FOUND env then None else Some (user_cmnd s1))
                   (user_stat s1) (map_option (\<lambda>i. i\<lparr>ci_status := status\<rparr>) info) rc)"
        by (simp add: command_matches_def)
      then show ?thesis
        using selected [of eff reset s2 pf
            "if status \<noteq> status_FOUND env then None else Some (user_cmnd s1)"
            "user_stat s1" "map_option (\<lambda>i. i\<lparr>ci_status := status\<rparr>) info"]
          Some er s1 f reset root [OF reset True] rt [OF True]
        by simp
    qed
  qed
qed

lemma select_pseudo:
  assumes "c_at c 0 \<noteq> CHR ''^''" and "c_at c 0 \<noteq> CHR ''/''"
  shows "select_strategy env mode s (Some c) sudoers_args rootfd intercepted digests
           = ((c = ''list'' \<or> c = ''sudoedit'') \<and> user_cmnd s = c
                \<and> command_args_match env s c sudoers_args, s)"
  using assms by (auto simp: select_strategy_def)

lemma reconcile_reset:
  "reconcile_chroot s runchroot = Some (eff, reset) \<Longrightarrow>
     reset = (user_runchroot s = None \<and> runchroot \<noteq> None) \<and> (reset \<longrightarrow> eff = runchroot)"
  by (auto simp: reconcile_chroot_def split: if_splits)

text \<open>
  Claim C6. For a rule command that starts neither with \<open>^\<close> nor with \<open>/\<close>,
  \<open>command_matches\<close> returns true only if the rule command is \<open>list\<close> or \<open>sudoedit\<close>, the
  argument matcher accepts, and \<open>user_cmnd\<close> equals the rule command; every other bare
  identifier is rejected. \<open>user_cmnd\<close> is the global at the time of the comparison: the
  caller's \<open>user_cmnd\<close>, or what \<open>set_cmnd_path\<close> resolved inside the rule's chroot when
  the rule, and not the user, names one.
\<close>

theorem pseudo_command_closure:
  assumes c1: "c_at c 0 \<noteq> CHR ''^''" and c2: "c_at c 0 \<noteq> CHR ''/''"
    and rc: "fst (command_matches env mode s (Some c) sudoers_args runchroot info digests)"
  shows "(c = ''list'' \<or> c = ''sudoedit'')
         \<and> command_args_match env s c sudoers_args
         \<and> (case (user_runchroot s, runchroot) of
               (None, Some r) \<Rightarrow> r_cmnd (os_set_cmnd_path env r (user_cmnd s)) = c
             | _ \<Rightarrow> user_cmnd s = c)"
proof (cases rule: command_matches_unfold
    [of s runchroot env mode "Some c" sudoers_args info digests])
  case mismatch
  with rc show ?thesis by simp
next
  case (pivot_failed s' info')
  with rc show ?thesis by simp
next
  case (selected eff reset pf s2 sc ss info2)
  from rc selected(2) have
    sel: "(c = ''list'' \<or> c = ''sudoedit'') \<and> user_cmnd s2 = c
          \<and> command_args_match env s2 c sudoers_args"
    by (simp add: select_pseudo [OF c1 c2])
  moreover have "command_args_match env s2 c sudoers_args = command_args_match env s c sudoers_args"
    using selected(3) by (rule command_args_match_cong)
  moreover note reconcile_reset [OF selected(1)] selected(6)
  ultimately show ?thesis
    by (auto split: option.splits)
qed


theorem pseudo_command_closure_witness:
  "c_at ''list'' 0 \<noteq> CHR ''^'' \<and> c_at ''list'' 0 \<noteq> CHR ''/''
   \<and> fst (command_matches env0 NameMatch (st0\<lparr>user_cmnd := ''list''\<rparr>) (Some ''list'')
            None None None [])
   \<and> command_args_match env0 (st0\<lparr>user_cmnd := ''list''\<rparr>) ''list'' None
   \<and> user_cmnd (st0\<lparr>user_cmnd := ''list''\<rparr>) = ''list''"
proof -
  let ?s = "st0\<lparr>user_cmnd := ''list''\<rparr>"
  have a: "c_at ''list'' 0 \<noteq> CHR ''^''" and b: "c_at ''list'' 0 \<noteq> CHR ''/''"
    by (simp_all add: c_at_def)
  have c: "fst (command_matches env0 NameMatch ?s (Some ''list'') None None None [])"
    by (simp add: command_matches_def reconcile_chroot_def st0_def select_pseudo [OF a b]
        command_args_match_def)
  from pseudo_command_closure [OF a b c] a b c
  show ?thesis by (simp add: st0_def)
qed

section \<open>The directory matcher on a direct child and on a failed allocation\<close>

lemma command_matches_dir_name_never:
  "fst (command_matches_dir_name env s sudoers_dir dlen rootfd intercepted digests) = False"
  by (simp add: command_matches_dir_name_def c_strchr_NUL)

text \<open>
  Claim C3 (the code departs from it). In name-match mode the directory matcher looks for
  the string terminator where it means to look for a further slash, and \<open>strchr\<close> always
  finds the terminator: the matcher rejects every input. Here \<open>user_cmnd\<close> is
  \<open>/bin//ls\<close> and the rule is \<open>/bin/\<close>: \<open>user_cmnd\<close> starts with the rule followed by a
  slash, the remainder \<open>ls\<close> has no slash, the open and the digest check succeed, and
  the matcher still returns false.
\<close>

theorem dir_name_rejects_direct_child:
  "c_strncmp_eq ''/bin//ls'' ''/bin/'' 5
   \<and> c_at ''/bin//ls'' 5 = CHR ''/''
   \<and> CHR ''/'' \<notin> set (drop 6 ''/bin//ls'')
   \<and> fst (open_cmnd env0 (st0\<lparr>user_cmnd := ''/bin//ls''\<rparr>) ''/bin//ls'' [] (- 1))
   \<and> digest_matches env0 (st0\<lparr>user_cmnd := ''/bin//ls''\<rparr>) (- 1) ''/bin//ls'' []
   \<and> \<not> fst (command_matches_dir_name env0 (st0\<lparr>user_cmnd := ''/bin//ls''\<rparr>) ''/bin/'' 5
              (- 1) False [])"
  by (simp add: command_matches_dir_name_never c_strncmp_eq_def c_at_def open_cmnd_def
      digest_matches_def st0_def)

theorem dir_name_rejects_direct_child_witness:
  "fst (command_matches_dir_name env0 (st0\<lparr>user_cmnd := ''/bin//ls''\<rparr>) ''/bin/'' 5
          (- 1) False []) = False"
  using dir_name_rejects_direct_child by simp

text \<open>The normal strategy, for a rule that is not a directory, fails closed when the
  copy of the matched path cannot be allocated.\<close>

lemma normal_inode_fails_closed:
  assumes "\<not> os_alloc_ok env c" and "c_at c (length c - 1) \<noteq> CHR ''/''"
  shows "\<not> fst (command_matches_normal_inode env s c a rootfd i d)"
  using assms
  by (simp add: command_matches_normal_inode_def Let_def split_beta sys_strdup_def)

text \<open>
  Claim C2 (the code departs from it). In inode mode the directory matcher warns when the
  copy of the matched path cannot be allocated and then returns true all the same, with
  \<open>safe_cmnd\<close> null; the normal and the glob strategy fail closed at the same point.
  Here the rule is \<open>/bin/\<close>, the user's command is \<open>ls\<close> and every allocation fails.
\<close>

theorem dir_inode_accepts_on_failed_allocation:
  "command_matches_dir_inode (env0\<lparr>os_alloc_ok := \<lambda>p. False\<rparr>)
     (st0\<lparr>safe_cmnd := Some ''/bin/true''\<rparr>) ''/bin/'' 5 (- 1) False []
     = (True, st0\<lparr>safe_cmnd := None\<rparr>)"
  by (simp add: command_matches_dir_inode_def canon_differs_def env0_def st0_def open_cmnd_def
      do_stat_def sys_stat_def intercept_ok_def same_inode_def digest_matches_def
      sys_strdup_def close_if_def)

theorem dir_inode_accepts_on_failed_allocation_witness:
  "fst (command_matches_dir_inode (env0\<lparr>os_alloc_ok := \<lambda>p. False\<rparr>)
          (st0\<lparr>safe_cmnd := Some ''/bin/true''\<rparr>) ''/bin/'' 5 (- 1) False [])
   \<and> safe_cmnd (snd (command_matches_dir_inode (env0\<lparr>os_alloc_ok := \<lambda>p. False\<rparr>)
                        (st0\<lparr>safe_cmnd := Some ''/bin/true''\<rparr>) ''/bin/'' 5 (- 1) False []))
       = None"
  using dir_inode_accepts_on_failed_allocation by simp


section \<open>The descriptor table and the script handoff\<close>

lemma fresh_fd_notin: "fresh_fd tbl \<notin> set (map fst tbl)"
proof (cases "find (\<lambda>n. n \<notin> set (map fst tbl)) [0..<Suc (length tbl)]")
  case None
  then have "\<not> (\<exists>x. x \<in> set [0..<Suc (length tbl)] \<and> x \<notin> set (map fst tbl))"
    by (simp add: find_None_iff)
  then have "{0..<Suc (length tbl)} \<subseteq> set (map fst tbl)"
    unfolding set_upt by blast
  then have "card {0..<Suc (length tbl)} \<le> card (set (map fst tbl))"
    by (intro card_mono) auto
  also have "\<dots> \<le> length (map fst tbl)"
    by (rule card_length)
  finally show ?thesis by simp
next
  case (Some n)
  then have "n \<notin> set (map fst tbl)"
    unfolding find_Some_iff by blast
  moreover have "fresh_fd tbl = n"
    unfolding fresh_fd_def Some by simp
  ultimately show ?thesis by simp
qed





lemma fd_lookup_cmnd_fd [simp]: "fd_lookup (s\<lparr>cmnd_fd := c\<rparr>) fd = fd_lookup s fd"
  by (simp add: fd_lookup_def)




text \<open>The descriptor \<open>pivot_root\<close> hands to the strategies as \<open>rootfd\<close> is open on the
  directory \<open>/\<close> of the root the process had before the pivot.\<close>

lemma pivot_root_saves_root:
  assumes "pivot_root env s r = (True, pf, s1)"
  shows "fd_lookup s1 (fst pf)
           = Some \<lparr>fd_root = proc_root s, fd_path = ''/'', fd_mode = Directory,
                   fd_cloexec = False\<rparr>"
proof -
  let ?s0 = "s\<lparr>pivot_log := pivot_log s @ [r]\<rparr>"
  let ?a = "fresh_fd (fds ?s0)"
  let ?e = "\<lparr>fd_root = proc_root s, fd_path = ''/'', fd_mode = Directory, fd_cloexec = False\<rparr>"
  have ne: "fresh_fd ((?a, ?e) # fds ?s0) \<noteq> ?a"
    using fresh_fd_notin [of "(?a, ?e) # fds ?s0"] by auto
  from assms have pf: "fst pf = int ?a"
    and tbl: "fds s1 = (fresh_fd ((?a, ?e) # fds ?s0),
                         \<lparr>fd_root = proc_root s, fd_path = proc_cwd s, fd_mode = Directory,
                            fd_cloexec = False\<rparr>) # (?a, ?e) # fds ?s0"
    by (auto simp: pivot_root_def sys_open_new_def Let_def split: if_splits)
  show ?thesis
    using ne by (simp add: fd_lookup_def pf tbl)
qed




section \<open>The glob strategy: a digest mismatch on the exact path\<close>

lemma open_cmnd_cases:
  "open_cmnd env s p d f = (True, f, s)
   \<or> open_cmnd env s p d f = (False, f, s)
   \<or> (\<exists>m. open_cmnd env s p d f =
         (True, fst (sys_open_new s p m),
          sys_setfd (snd (sys_open_new s p m)) (fst (sys_open_new s p m)) True))"
  by (auto simp: open_cmnd_def Let_def split_beta)

lemma close_fresh:
  "k \<notin> fst ` set tbl \<Longrightarrow>
     filter (\<lambda>e. fst e \<noteq> k) (map (set_cloexec b (int k)) tbl) = tbl"
  by (induction tbl) (auto simp: set_cloexec_def)

lemma fds_close_open:
  "fds (sys_close (sys_setfd (snd (sys_open_new s p m)) (fst (sys_open_new s p m)) b)
          (fst (sys_open_new s p m))) = fds s"
  using fresh_fd_notin [of "fds s"]
  by (simp add: sys_close_def sys_setfd_def sys_open_new_def Let_def close_fresh set_cloexec_def)

lemma sys_close_frame: "sys_close s fd = s\<lparr>fds := fds (sys_close s fd)\<rparr>"
  by (simp add: sys_close_def)

lemma sys_setfd_frame: "sys_setfd s fd b = s\<lparr>fds := fds (sys_setfd s fd b)\<rparr>"
  by (simp add: sys_setfd_def)

lemma sys_open_new_frame: "snd (sys_open_new s p m) = s\<lparr>fds := fds (snd (sys_open_new s p m))\<rparr>"
  by (simp add: sys_open_new_def Let_def)


lemma close_if_frame: "close_if s fd = s\<lparr>fds := fds (close_if s fd)\<rparr>"
  by (simp add: close_if_def sys_close_def)

lemma open_cmnd_frame:
  assumes "open_cmnd env s p d f = (ok, fd, s1)"
  shows "s1 = s\<lparr>fds := fds s1\<rparr>"
proof -
  have "\<And>m. sys_setfd (snd (sys_open_new s p m)) (fst (sys_open_new s p m)) True
      = s\<lparr>fds := fds (sys_setfd (snd (sys_open_new s p m)) (fst (sys_open_new s p m)) True)\<rparr>"
    by (subst sys_setfd_frame, subst sys_open_new_frame) simp
  with assms open_cmnd_cases [of env s p d f] show ?thesis
    by auto
qed

lemma open_cmnd_close:
  assumes "open_cmnd env s p d (- 1) = (ok, fd, s1)"
  shows "close_if s1 fd = s"
proof -
  have "close_if (sys_setfd (snd (sys_open_new s p m)) (fst (sys_open_new s p m)) True)
      (fst (sys_open_new s p m)) = s" for m
  proof -
    let ?n = "sys_open_new s p m"
    have "fst ?n \<noteq> - 1" by (simp add: sys_open_new_def Let_def)
    then have "close_if (sys_setfd (snd ?n) (fst ?n) True) (fst ?n)
        = sys_close (sys_setfd (snd ?n) (fst ?n) True) (fst ?n)"
      by (simp add: close_if_def)
    also have "\<dots> = (sys_setfd (snd ?n) (fst ?n) True)\<lparr>fds := fds s\<rparr>"
      by (subst sys_close_frame) (simp add: fds_close_open)
    also have "\<dots> = (snd ?n)\<lparr>fds := fds s\<rparr>"
      by (subst sys_setfd_frame) simp
    also have "\<dots> = s"
      by (subst sys_open_new_frame) simp
    finally show ?thesis .
  qed
  moreover have "close_if s (- 1) = s" by (simp add: close_if_def)
  ultimately show ?thesis
    using assms open_cmnd_cases [of env s p d "- 1"] by auto
qed

lemma open_cmnd_glob_log:
  "open_cmnd env (s\<lparr>glob_log := g\<rparr>) p d f =
     (case open_cmnd env s p d f of (ok, fd, s1) \<Rightarrow> (ok, fd, s1\<lparr>glob_log := g\<rparr>))"
  by (auto simp: open_cmnd_def sys_open_new_def sys_setfd_def Let_def split: option.splits)

lemma glob_log_irrelevant [simp]:
  "do_stat env (s\<lparr>glob_log := g\<rparr>) fd p = do_stat env s fd p"
  "digest_matches env (s\<lparr>glob_log := g\<rparr>) fd p d = digest_matches env s fd p d"
  "intercept_ok (s\<lparr>glob_log := g\<rparr>) i sb = intercept_ok s i sb"
  by (simp_all add: do_stat_def sys_fstat_def sys_stat_def fd_lookup_def digest_matches_def
      intercept_ok_def)

lemma intercept_ok_fds [simp]: "intercept_ok (s\<lparr>fds := t\<rparr>) i sb = intercept_ok s i sb"
  by (simp add: intercept_ok_def)

lemma glob_exact_step_mismatch:
  assumes op: "open_cmnd env s (user_cmnd s) digests (- 1) = (True, fd1, s1)"
    and st: "do_stat env s1 fd1 (user_cmnd s) = Some sb"
    and ic: "intercept_ok s1 intercepted sb"
    and ino: "same_inode (user_stat s1) sb"
    and dg: "\<not> digest_matches env s1 fd1 (user_cmnd s) digests"
    and cl: "close_if t f = s"
  shows "glob_exact_step env intercepted digests cp t f bad =
           (if cp = user_cmnd s then Continue s1 fd1 True else Continue s (- 1) bad)"
  using assms by (simp add: glob_exact_step_def)

lemma glob_exact_pass_mismatch:
  assumes op: "open_cmnd env s (user_cmnd s) digests (- 1) = (True, fd1, s1)"
    and st: "do_stat env s1 fd1 (user_cmnd s) = Some sb"
    and ic: "intercept_ok s1 intercepted sb"
    and ino: "same_inode (user_stat s1) sb"
    and dg: "\<not> digest_matches env s1 fd1 (user_cmnd s) digests"
    and cl: "close_if t f = s"
  shows "\<exists>t' f'. glob_exact_pass env intercepted digests gl t f bad
                    = Continue t' f' (bad \<or> user_cmnd s \<in> set gl)
                  \<and> close_if t' f' = s"
  using cl
proof (induction gl arbitrary: t f bad)
  case Nil
  then show ?case by simp
next
  case (Cons cp gl)
  note step = glob_exact_step_mismatch [OF op st ic ino dg Cons.prems, of cp bad]
  show ?case
  proof (cases "cp = user_cmnd s")
    case True
    have "close_if s1 fd1 = s" using op by (rule open_cmnd_close)
    from Cons.IH [OF this, of True] True step show ?thesis by auto
  next
    case False
    have "close_if s (- 1) = s" by (simp add: close_if_def)
    from Cons.IH [OF this, of bad] False step show ?thesis by auto
  qed
qed

text \<open>
  Claim C4. In the inode-mode glob strategy, let the user's command be absolute and be
  one of the entries of the expansion, and let the exact-path pass see a digest mismatch
  on it: the entry can be opened and stat'ed, passes the setid guard, has the user's
  inode, and its digest is not among the rule's. Then the strategy returns false,
  whatever the other entries are, and \<open>safe_cmnd\<close> and \<open>cmnd_fd\<close> are as before; the
  exact-path pass runs off the end of the expansion with \<open>bad_digest\<close> set, so that
  the basename pass is not run.
\<close>

theorem glob_exact_digest_mismatch_rejects:
  assumes abs: "c_at (user_cmnd s) 0 = CHR ''/''"
    and gl: "os_glob env (proc_root s) sudoers_cmnd = Some gl"
    and mem: "user_cmnd s \<in> set gl"
    and op: "open_cmnd env s (user_cmnd s) digests (- 1) = (True, fd1, s1)"
    and st: "do_stat env s1 fd1 (user_cmnd s) = Some sb"
    and ic: "intercept_ok s intercepted sb"
    and ino: "same_inode (user_stat s) sb"
    and dg: "\<not> digest_matches env s1 fd1 (user_cmnd s) digests"
  shows "fst (command_matches_glob_inode env s sudoers_cmnd sudoers_args rootfd intercepted
                digests) = False
         \<and> safe_cmnd (snd (command_matches_glob_inode env s sudoers_cmnd sudoers_args rootfd
                              intercepted digests)) = safe_cmnd s
         \<and> cmnd_fd (snd (command_matches_glob_inode env s sudoers_cmnd sudoers_args rootfd
                            intercepted digests)) = cmnd_fd s
         \<and> (\<exists>t f. glob_exact_pass env intercepted digests gl
                     (s\<lparr>glob_log := glob_log s @ [sudoers_cmnd]\<rparr>) (- 1) False
                   = Continue t f True)"
proof -
  let ?g = "glob_log s @ [sudoers_cmnd]"
  let ?sg = "s\<lparr>glob_log := ?g\<rparr>"
  let ?s1 = "s1\<lparr>glob_log := ?g\<rparr>"
  have fr: "s1 = s\<lparr>fds := fds s1\<rparr>" using op by (rule open_cmnd_frame)
  have op': "open_cmnd env ?sg (user_cmnd ?sg) digests (- 1) = (True, fd1, ?s1)"
    using op by (simp add: open_cmnd_glob_log)
  have st': "do_stat env ?s1 fd1 (user_cmnd ?sg) = Some sb" using st by simp
  have ic': "intercept_ok ?s1 intercepted sb"
    using ic by (subst fr) simp
  have ino': "same_inode (user_stat ?s1) sb"
    using ino by (subst fr) simp
  have dg': "\<not> digest_matches env ?s1 fd1 (user_cmnd ?sg) digests" using dg by simp
  have cl: "close_if ?sg (- 1) = ?sg" by (simp add: close_if_def)
  from glob_exact_pass_mismatch [OF op' st' ic' ino' dg' cl, of gl False] mem
  obtain t f where pass: "glob_exact_pass env intercepted digests gl ?sg (- 1) False
      = Continue t f True" and cl': "close_if t f = ?sg"
    by auto
  have ne: "gl \<noteq> []" using mem by auto
  have res: "command_matches_glob_inode env s sudoers_cmnd sudoers_args rootfd intercepted
      digests = (False, if glob_short_circuit s sudoers_cmnd then s else ?sg)"
    using gl ne abs pass cl'
    by (simp add: command_matches_glob_inode_def glob_done_def)
  show ?thesis
    using pass by (simp add: res)
qed




theorem glob_exact_digest_mismatch_rejects_witness:
  "c_at (user_cmnd st0) 0 = CHR ''/''
   \<and> os_glob env0 (proc_root st0) ''/bin/l*'' = Some [''/bin/ls'']
   \<and> user_cmnd st0 \<in> set [''/bin/ls'']
   \<and> open_cmnd env0 st0 (user_cmnd st0) [(1, ''abc'')] (- 1) = (True, 0, st_opened)
   \<and> do_stat env0 st_opened 0 (user_cmnd st0) = Some stat0
   \<and> intercept_ok st0 False stat0
   \<and> same_inode (user_stat st0) stat0
   \<and> \<not> digest_matches env0 st_opened 0 (user_cmnd st0) [(1, ''abc'')]
   \<and> fst (command_matches_glob_inode env0 st0 ''/bin/l*'' None (- 1) False [(1, ''abc'')])
       = False"
proof -
  have u: "user_cmnd st0 = ''/bin/ls''" by (simp add: st0_def)
  have a: "c_at (user_cmnd st0) 0 = CHR ''/''" by (simp add: u c_at_def)
  have g: "os_glob env0 (proc_root st0) ''/bin/l*'' = Some [''/bin/ls'']"
    by (simp add: env0_def)
  have m: "user_cmnd st0 \<in> set [''/bin/ls'']" by (simp add: u)
  have f: "fresh_fd [] = 0" by (simp add: fresh_fd_def)
  have op: "open_cmnd env0 st0 (user_cmnd st0) [(1, ''abc'')] (- 1) = (True, 0, st_opened)"
    by (simp add: open_cmnd_def sys_open_new_def sys_setfd_def set_cloexec_def f u st_opened_def
        env0_def st0_def)
  have l: "fd_lookup st_opened 0
      = Some \<lparr>fd_root = ''/'', fd_path = ''/bin/ls'', fd_mode = ReadOnly, fd_cloexec = True\<rparr>"
    by (simp add: fd_lookup_def st_opened_def)
  have st: "do_stat env0 st_opened 0 (user_cmnd st0) = Some stat0"
    by (simp add: do_stat_def sys_fstat_def l env0_def)
  have ic: "intercept_ok st0 False stat0" by (simp add: intercept_ok_def)
  have ino: "same_inode (user_stat st0) stat0" by (simp add: same_inode_def st0_def)
  have dg: "\<not> digest_matches env0 st_opened 0 (user_cmnd st0) [(1, ''abc'')]"
    by (simp add: digest_matches_def l env0_def)
  from glob_exact_digest_mismatch_rejects [OF a g m op st ic ino dg, of None "- 1"]
    a g m op st ic ino dg
  show ?thesis by simp
qed

section \<open>What a rejected match leaves in safe\_cmnd\<close>

lemma close_if_keeps [simp]:
  "safe_cmnd (close_if s fd) = safe_cmnd s" "user_args (close_if s fd) = user_args s"
  by (simp_all add: close_if_def sys_close_def)

lemma set_cmnd_fd_keeps [simp]:
  "safe_cmnd (set_cmnd_fd env s fd rootfd) = safe_cmnd s"
  "user_args (set_cmnd_fd env s fd rootfd) = user_args s"
  by (simp_all add: set_cmnd_fd_def sys_close_def sys_setfd_def Let_def split: option.splits)

lemma open_cmnd_keeps [simp]:
  "safe_cmnd (snd (snd (open_cmnd env s p d f))) = safe_cmnd s"
  "user_args (snd (snd (open_cmnd env s p d f))) = user_args s"
proof -
  obtain ok fd s1 where o: "open_cmnd env s p d f = (ok, fd, s1)"
    by (cases "open_cmnd env s p d f")
  from open_cmnd_frame [OF o] have "safe_cmnd s1 = safe_cmnd s" "user_args s1 = user_args s"
    by (erule_tac [!] ssubst) simp_all
  with o show "safe_cmnd (snd (snd (open_cmnd env s p d f))) = safe_cmnd s"
    "user_args (snd (snd (open_cmnd env s p d f))) = user_args s"
    by simp_all
qed























text \<open>The first exception of the amended claim is real as well: with the rule \<open>/bin/ls\<close>
  and no memory for the copy, the normal strategy rejects and leaves \<open>safe_cmnd\<close> null
  where it held \<open>/bin/true\<close>.\<close>

lemma safe_cmnd_nulled_on_failed_allocation:
  "command_matches (env0\<lparr>os_alloc_ok := \<lambda>p. False\<rparr>) InodeMatch
     (st0\<lparr>safe_cmnd := Some ''/bin/true''\<rparr>) (Some ''/bin/ls'') None None None []
     = (False, st0, None)
   \<and> safe_cmnd st0 = None"
proof -
  let ?e = "env0\<lparr>os_alloc_ok := \<lambda>p. False\<rparr>"
  let ?s = "st0\<lparr>safe_cmnd := Some ''/bin/true''\<rparr>"
  have m: "\<not> has_meta ''/bin/ls''" "c_at ''/bin/ls'' 0 = CHR ''/''"
    "sudo_basename ''/bin/ls'' = ''ls''"
    by (simp_all add: has_meta_def meta_chars_def c_at_def sudo_basename_def NUL_def)
  have n: "command_matches_normal_inode ?e ?s ''/bin/ls'' None (- 1) False [] = (False, st0)"
    by (simp add: command_matches_normal_inode_def m normal_dir_bad_def open_cmnd_def
        do_stat_def sys_stat_def intercept_ok_def same_inode_def command_args_match_def
        digest_matches_def sys_strdup_def close_if_def c_at_def st0_def env0_def)
  have sel: "select_strategy ?e InodeMatch ?s (Some ''/bin/ls'') None (- 1) False []
      = (False, st0)"
    by (simp add: select_strategy_def m command_matches_normal_def n)
  have "command_matches ?e InodeMatch ?s (Some ''/bin/ls'') None None None []
      = (False, st0, None)"
    by (simp add: command_matches_def reconcile_chroot_def sel restore_after_def)
      (simp add: st0_def)
  then show ?thesis by (simp add: st0_def)
qed

end
